theory Spec2Isabelle
  imports Main
begin

section \<open>Values of the menu library\<close>

text \<open>
  The exceptions the modelled code can raise: the library's own (\<open>dpymenus.exceptions\<close>)
  and the built-in ones that a failed attribute access, call, index or key lookup raises.
\<close>

datatype error =
    ButtonsError | EventError | SessionError | PagesError
  | AttributeError | TypeError | IndexError | KeyError

text \<open>
  A button is a \<open>discord.Emoji\<close> (id and name), a \<open>discord.PartialEmoji\<close>
  (optional id and name) or a plain \<open>str\<close>.
\<close>

datatype button =
    EmojiObj nat string
  | PartialObj "nat option" string
  | Str string

text \<open>
  The class \<open>Page\<close> is imported from the package and read by the menus through these
  attributes. A hook is a coroutine function, named by its \<open>__name__\<close>; what it does
  is given by a hook environment (see \<open>hooks\<close> below).
\<close>

record page =
  index :: int
  buttons_list :: "button list"
  on_next_event :: "string option"
  on_cancel_event :: "string option"
  on_timeout_event :: "string option"
  on_fail_event :: "string option"

text \<open>
  An entry of \<open>Message.reactions\<close>: a \<open>discord.Reaction\<close> carrying its emoji, or any
  other value stored in the list directly.
\<close>

datatype attached = ReactionObj button | RawItem button

record message =
  msg_id :: nat
  in_guild :: bool
  reactions :: "attached list"

text \<open>A \<open>RawReactionActionEvent\<close>: who reacted, on which message, with which emoji.\<close>

record reaction_event =
  user_id :: nat
  message_id :: nat
  emoji_id :: "nat option"
  emoji_name :: string

datatype input_value = CommandMessage | Pressed button

datatype menu_class = ButtonMenu | TextMenu | PaginatedMenu

text \<open>
  The menu object: the attributes \<open>BaseMenu.__init__\<close> sets, the context's author,
  channel and message, and the attributes the fluent setters create (\<open>timeout_attr\<close> is
  the attribute \<open>_timeout\<close> that \<open>set_timeout\<close> stores, absent until then;
  \<open>destination_attr\<close> is \<open>_destination\<close>, recorded by whether it is a guild channel;
  \<open>ctx_in_guild\<close> says so of the context's own channel).
  Modelled from the spec: \<open>custom_check\<close>, the "caller-supplied custom predicate" that
  \<open>ButtonMenu\<close> reads from the menu and whose declaration is not part of the sources
  at hand; \<open>None\<close> is a value that is not truthy.
\<close>

record menu =
  menu_ref :: nat
  menu_class :: menu_class
  author_id :: nat
  channel_id :: nat
  ctx_in_guild :: bool
  destination_attr :: "bool option"
  pages :: "page list"
  page :: "page option"
  active :: bool
  input :: "input_value option"
  output_msg :: "message option"
  history :: "int list"
  timeout_attr :: "int option"
  command_message :: bool
  persist :: bool
  custom_check :: "(reaction_event \<Rightarrow> bool) option"

text \<open>
  What lies outside the menu object: the module-level dictionary \<open>sessions\<close>, keyed by
  (author id, channel id); the calls made to the chat platform, in order; the records
  handed to \<open>logging\<close>.
\<close>

datatype content = PageEmbed int | TimedOutEmbed

datatype effect =
    Send content
  | Edit nat content
  | Delete nat
  | DeleteCommand
  | AddReaction nat button
  | RemoveReaction nat "input_value option"
  | ClearReactions nat

datatype level = LInfo | LWarning | LError

datatype log_msg = Exc error | ThrottleWarning

record world =
  sessions :: "nat \<times> nat \<Rightarrow> nat option"
  next_msg :: nat
  effects :: "effect list"
  logged :: "(level \<times> log_msg) list"

text \<open>
  Constants and tables imported from modules outside the sources at hand:
  \<open>HISTORY_CACHE_LIMIT\<close>, \<open>HIDE_WARNINGS\<close>, the names of the bot's custom emojis,
  and the keys of \<open>emoji.UNICODE_EMOJI_ALIAS_ENGLISH\<close>.
\<close>

record config =
  history_cache_limit :: int
  hide_warnings :: bool
  bot_emojis :: "string list"
  unicode_emoji_alias :: "string \<Rightarrow> bool"

type_synonym st = "menu \<times> world"

text \<open>
  A call either returns a value, or raises; either way the mutations made so far stay.
  \<open>Blocked\<close>: the coroutine is suspended, waiting for the platform.
\<close>

datatype 'a outcome = Done 'a st | Raised error st | Blocked st

fun andThen :: "'a outcome \<Rightarrow> ('a \<Rightarrow> st \<Rightarrow> 'b outcome) \<Rightarrow> 'b outcome" where
  "andThen (Done v s) f = f v s"
| "andThen (Raised e s) f = Raised e s"
| "andThen (Blocked s) f = Blocked s"

type_synonym hooks = "string \<Rightarrow> st \<Rightarrow> unit outcome"

text \<open>Python's \<open>xs[i]\<close>: a negative index counts from the end; out of range raises.\<close>

definition py_index :: "'a list \<Rightarrow> int \<Rightarrow> error + 'a" where
  "py_index xs i =
     (if 0 \<le> i \<and> i < int (length xs) then Inr (xs ! nat i)
      else if i < 0 \<and> - int (length xs) \<le> i then Inr (xs ! nat (int (length xs) + i))
      else Inl IndexError)"

definition add_effect :: "effect \<Rightarrow> world \<Rightarrow> world" where
  "add_effect e w = w\<lparr>effects := effects w @ [e]\<rparr>"

definition add_log :: "level \<Rightarrow> log_msg \<Rightarrow> world \<Rightarrow> world" where
  "add_log l x w = w\<lparr>logged := logged w @ [(l, x)]\<rparr>"

definition session_key :: "menu \<Rightarrow> nat \<times> nat" where
  "session_key m = (author_id m, channel_id m)"

text \<open>The property \<open>destination\<close>: the attribute when set, else the context.\<close>

definition dest_in_guild :: "menu \<Rightarrow> bool" where
  "dest_in_guild m = (case destination_attr m of None \<Rightarrow> ctx_in_guild m | Some g \<Rightarrow> g)"

section \<open>BaseMenu\<close>

text \<open>\<open>BaseMenu.__init__\<close>, for a context with the given author and channel.\<close>

definition new_menu :: "menu_class \<Rightarrow> nat \<Rightarrow> nat \<Rightarrow> nat \<Rightarrow> bool \<Rightarrow> menu" where
  "new_menu cls ref author channel guild =
     \<lparr>menu_ref = ref, menu_class = cls, author_id = author, channel_id = channel,
      ctx_in_guild = guild, destination_attr = None, pages = [], page = None, active = True,
      input = None, output_msg = None, history = [], timeout_attr = None,
      command_message = False, persist = False, custom_check = None\<rparr>"

text \<open>\<open>last_visited_page\<close>: \<open>self.history[-2] if len(self.history) > 1 else 0\<close>.\<close>

definition last_visited_page :: "menu \<Rightarrow> error + int" where
  "last_visited_page m =
     (if length (history m) > 1 then py_index (history m) (- 2) else Inr 0)"

text \<open>
  \<open>update_history\<close>: pops the oldest entry when the history has reached the cache limit
  (\<open>list.pop(0)\<close> raises on an empty list), then appends the current page's index.
\<close>

definition update_history :: "config \<Rightarrow> st \<Rightarrow> unit outcome" where
  "update_history cfg s =
     (let popped =
        (if int (length (history (fst s))) \<ge> history_cache_limit cfg
         then (case history (fst s) of
                 [] \<Rightarrow> Raised IndexError s
               | x # h \<Rightarrow> Done () ((fst s)\<lparr>history := h\<rparr>, snd s))
         else Done () s)
      in andThen popped (\<lambda>_ s1.
           case page (fst s1) of
             None \<Rightarrow> Raised AttributeError s1
           | Some p \<Rightarrow> Done () ((fst s1)\<lparr>history := history (fst s1) @ [index p]\<rparr>, snd s1)))"

text \<open>\<open>close_session\<close>: \<open>del sessions[key]\<close> (raises when the key is absent), then inactive.\<close>

definition close_session :: "st \<Rightarrow> unit outcome" where
  "close_session s =
     (case sessions (snd s) (session_key (fst s)) of
        None \<Rightarrow> Raised KeyError s
      | Some _ \<Rightarrow>
          Done () ((fst s)\<lparr>active := False\<rparr>,
                   (snd s)\<lparr>sessions := (sessions (snd s))(session_key (fst s) := None)\<rparr>))"

text \<open>
  \<open>send_message\<close>: edits the output message in a guild channel; elsewhere deletes it and
  sends a new one to the destination, which becomes the output.
\<close>

definition send_message :: "content \<Rightarrow> st \<Rightarrow> unit outcome" where
  "send_message c s =
     (case output_msg (fst s) of
        None \<Rightarrow> Raised AttributeError s
      | Some out \<Rightarrow>
          if in_guild out then Done () (fst s, add_effect (Edit (msg_id out) c) (snd s))
          else
            (let w1 = add_effect (Delete (msg_id out)) (snd s);
                 new = \<lparr>msg_id = next_msg w1, in_guild = dest_in_guild (fst s), reactions = []\<rparr>
             in Done () ((fst s)\<lparr>output_msg := Some new\<rparr>,
                         add_effect (Send c) (w1\<lparr>next_msg := Suc (next_msg w1)\<rparr>))))"

text \<open>
  \<open>_post_next\<close>: outside a \<open>PaginatedMenu\<close>, a page without an \<open>on_next\<close> hook closes the
  session; then the history is updated and the page is sent.
\<close>

definition post_next :: "config \<Rightarrow> st \<Rightarrow> unit outcome" where
  "post_next cfg s =
     andThen
       (if menu_class (fst s) \<noteq> PaginatedMenu then
          (case page (fst s) of
             None \<Rightarrow> Raised AttributeError s
           | Some p \<Rightarrow>
               if on_next_event p = None
               then andThen (close_session s)
                      (\<lambda>_ s1. Done () ((fst s1)\<lparr>active := False\<rparr>, snd s1))
               else Done () s)
        else Done () s)
       (\<lambda>_ s1. andThen (update_history cfg s1) (\<lambda>_ s2.
          case page (fst s2) of
            None \<Rightarrow> Raised AttributeError s2
          | Some q \<Rightarrow> send_message (PageEmbed (index q)) s2))"

text \<open>\<open>next\<close> and \<open>previous\<close>: return at once at the boundary, else move and post.\<close>

definition next_page :: "config \<Rightarrow> st \<Rightarrow> unit outcome" where
  "next_page cfg s =
     (case page (fst s) of
        None \<Rightarrow> Raised AttributeError s
      | Some p \<Rightarrow>
          if index p + 1 > int (length (pages (fst s))) - 1 then Done () s
          else (case py_index (pages (fst s)) (index p + 1) of
                  Inl e \<Rightarrow> Raised e s
                | Inr q \<Rightarrow> post_next cfg ((fst s)\<lparr>page := Some q\<rparr>, snd s)))"

definition previous_page :: "config \<Rightarrow> st \<Rightarrow> unit outcome" where
  "previous_page cfg s =
     (case page (fst s) of
        None \<Rightarrow> Raised AttributeError s
      | Some p \<Rightarrow>
          if index p - 1 < 0 then Done () s
          else (case py_index (pages (fst s)) (index p - 1) of
                  Inl e \<Rightarrow> Raised e s
                | Inr q \<Rightarrow> post_next cfg ((fst s)\<lparr>page := Some q\<rparr>, snd s)))"

text \<open>
  \<open>add_pages\<close>: \<open>_validate_pages\<close> rejects an empty list; each page gets its position
  in the given list as its index and is appended; the current page becomes \<open>pages[0]\<close>.
\<close>

definition validate_pages :: "page list \<Rightarrow> error + unit" where
  "validate_pages ps = (if length ps = 0 then Inl PagesError else Inr ())"

definition add_pages :: "page list \<Rightarrow> st \<Rightarrow> unit outcome" where
  "add_pages ps s =
     (case validate_pages ps of
        Inl e \<Rightarrow> Raised e s
      | Inr _ \<Rightarrow>
          (let m1 = (fst s)\<lparr>pages := pages (fst s) @
                       map (\<lambda>(i, p). p\<lparr>index := int i\<rparr>) (enumerate 0 ps)\<rparr>
           in case py_index (pages m1) 0 of
                Inl e \<Rightarrow> Raised e (m1, snd s)
              | Inr p0 \<Rightarrow> Done () (m1\<lparr>page := Some p0\<rparr>, snd s)))"

text \<open>\<open>_start_session\<close>: raises when the key is in \<open>sessions\<close>, else stores the menu.\<close>

definition start_session :: "st \<Rightarrow> unit outcome" where
  "start_session s =
     (if sessions (snd s) (session_key (fst s)) \<noteq> None then Raised SessionError s
      else Done () (fst s, (snd s)\<lparr>sessions :=
             (sessions (snd s))(session_key (fst s) := Some (menu_ref (fst s)))\<rparr>))"

text \<open>
  \<open>_cleanup_input\<close>: deletes the user's command message in a guild channel, unless the
  menu keeps command messages. A button has no \<open>channel\<close>.
\<close>

definition cleanup_input :: "st \<Rightarrow> unit outcome" where
  "cleanup_input s =
     (if \<not> command_message (fst s) then
        (case input (fst s) of
           Some CommandMessage \<Rightarrow>
             if ctx_in_guild (fst s) then Done () (fst s, add_effect DeleteCommand (snd s))
             else Done () s
         | Some (Pressed b) \<Rightarrow> Raised AttributeError s
         | None \<Rightarrow> Raised AttributeError s)
      else Done () s)"

text \<open>
  \<open>_open\<close>: nothing without pages; else registers the session, sends the current page,
  takes the command message as input, records the page in the history, cleans up.
\<close>

definition open_base :: "config \<Rightarrow> st \<Rightarrow> unit outcome" where
  "open_base cfg s =
     (if pages (fst s) = [] then Done () s
      else andThen (start_session s) (\<lambda>_ s1.
        case page (fst s1) of
          None \<Rightarrow> Raised AttributeError s1
        | Some p \<Rightarrow>
            (let new = \<lparr>msg_id = next_msg (snd s1), in_guild = dest_in_guild (fst s1),
                        reactions = []\<rparr>;
                 s2 = ((fst s1)\<lparr>input := Some CommandMessage, output_msg := Some new\<rparr>,
                       add_effect (Send (PageEmbed (index p)))
                         ((snd s1)\<lparr>next_msg := Suc (next_msg (snd s1))\<rparr>))
             in andThen (update_history cfg s2) (\<lambda>_ s3. cleanup_input s3))))"

text \<open>
  \<open>_execute_timeout\<close>: the page's \<open>on_timeout\<close> hook when there is one; else the
  timed-out notice is sent, the session is closed and the menu made inactive.
\<close>

definition execute_timeout :: "hooks \<Rightarrow> st \<Rightarrow> unit outcome" where
  "execute_timeout henv s =
     (case page (fst s) of
        None \<Rightarrow> Raised AttributeError s
      | Some p \<Rightarrow>
          (case on_timeout_event p of
             Some h \<Rightarrow> henv h s
           | None \<Rightarrow>
               andThen (send_message TimedOutEmbed s) (\<lambda>_ s1.
               andThen (close_session s1) (\<lambda>_ s2.
                 Done () ((fst s2)\<lparr>active := False\<rparr>, snd s2)))))"

section \<open>ButtonMenu\<close>

text \<open>Python's \<open>str.split(sep)\<close> for a one-character separator.\<close>

fun split_on :: "char \<Rightarrow> string \<Rightarrow> string list" where
  "split_on c [] = [[]]"
| "split_on c (x # xs) =
     (if x = c then [] # split_on c xs
      else (case split_on c xs of
              [] \<Rightarrow> [[x]]
            | y # ys \<Rightarrow> (x # y) # ys))"

text \<open>
  \<open>_check_buttons\<close>: an emoji object passes; a string passes when the part after its
  first colon names one of the bot's emojis, or when it is a key of the unicode table.
\<close>

fun check_buttons :: "config \<Rightarrow> button list \<Rightarrow> error + unit" where
  "check_buttons cfg [] = Inr ()"
| "check_buttons cfg (EmojiObj i n # bs) = check_buttons cfg bs"
| "check_buttons cfg (PartialObj i n # bs) = check_buttons cfg bs"
| "check_buttons cfg (Str s # bs) =
     (let test = split_on (CHR '':'') s in
      if test \<noteq> [] \<and> length test > 1 \<and> test ! 1 \<in> set (bot_emojis cfg)
      then check_buttons cfg bs
      else if unicode_emoji_alias cfg s then check_buttons cfg bs
      else Inl ButtonsError)"

text \<open>
  The loop of \<open>_validate_buttons\<close>: stops at the first page without buttons, counts the
  pages with an \<open>on_next\<close> hook, warns about more than five buttons, checks the buttons.
\<close>

fun count_callbacks :: "config \<Rightarrow> page list \<Rightarrow> int \<Rightarrow> world \<Rightarrow> (error + int) \<times> world" where
  "count_callbacks cfg [] cb w = (Inr cb, w)"
| "count_callbacks cfg (p # ps) cb w =
     (if buttons_list p = [] then (Inr cb, w)
      else
        (let cb1 = (if on_next_event p \<noteq> None then cb + 1 else cb) in
         if length (buttons_list p) < 1 then (Inl ButtonsError, w)
         else
           (let w1 = (if length (buttons_list p) > 5 \<and> hide_warnings cfg = False
                      then add_log LWarning ThrottleWarning w else w)
            in case check_buttons cfg (buttons_list p) of
                 Inl e \<Rightarrow> (Inl e, w1)
               | Inr _ \<Rightarrow> count_callbacks cfg ps cb1 w1)))"

text \<open>
  \<open>_validate_buttons\<close>: after the loop, the current page must have no \<open>on_fail\<close> hook,
  and the count must reach the number of pages minus one.
\<close>

definition validate_buttons :: "config \<Rightarrow> st \<Rightarrow> unit outcome" where
  "validate_buttons cfg s =
     (case count_callbacks cfg (pages (fst s)) 0 (snd s) of
        (Inl e, w1) \<Rightarrow> Raised e (fst s, w1)
      | (Inr cb, w1) \<Rightarrow>
          (case page (fst s) of
             None \<Rightarrow> Raised AttributeError (fst s, w1)
           | Some p \<Rightarrow>
               if on_fail_event p \<noteq> None then Raised EventError (fst s, w1)
               else if cb < int (length (pages (fst s))) - 1 then Raised EventError (fst s, w1)
               else Done () (fst s, w1)))"

text \<open>\<open>_add_buttons\<close>: one \<open>add_reaction\<close> on the output message per button of the page.\<close>

definition add_buttons :: "st \<Rightarrow> unit outcome" where
  "add_buttons s =
     (case page (fst s) of
        None \<Rightarrow> Raised AttributeError s
      | Some p \<Rightarrow>
          if buttons_list p = [] then Done () s
          else (case output_msg (fst s) of
                  None \<Rightarrow> Raised AttributeError s
                | Some out \<Rightarrow>
                    Done () (fst s, foldl (\<lambda>w b. add_effect (AddReaction (msg_id out) b) w)
                                      (snd s) (buttons_list p))))"

text \<open>
  \<open>_get_emoji\<close>: the first button of the page that matches the event's emoji: an
  \<open>Emoji\<close> by equality with the event's emoji (the platform library compares ids), a
  string by the name after its colon, or whole. A button of another type answers the
  event's own emoji. No match: the loop ends and nothing is returned.
\<close>

fun get_emoji_loop :: "button list \<Rightarrow> reaction_event \<Rightarrow> button option" where
  "get_emoji_loop [] ev = None"
| "get_emoji_loop (EmojiObj i n # bs) ev =
     (if emoji_id ev = Some i then Some (EmojiObj i n) else get_emoji_loop bs ev)"
| "get_emoji_loop (Str s # bs) ev =
     (let test = split_on (CHR '':'') s in
      if length test > 1
      then (if test ! 1 = emoji_name ev then Some (Str s) else get_emoji_loop bs ev)
      else (if s = emoji_name ev then Some (Str s) else get_emoji_loop bs ev))"
| "get_emoji_loop (PartialObj i n # bs) ev = Some (PartialObj (emoji_id ev) (emoji_name ev))"

definition get_emoji :: "menu \<Rightarrow> reaction_event \<Rightarrow> error + button option" where
  "get_emoji m ev =
     (case page m of
        None \<Rightarrow> Inl AttributeError
      | Some p \<Rightarrow> Inr (get_emoji_loop (buttons_list p) ev))"

text \<open>
  \<open>_check_reaction\<close>. The inner list holds, for each entry of the output's reactions,
  the emoji's name when the entry is a \<open>Reaction\<close> with an \<open>Emoji\<close>, the reaction's
  emoji when it is a \<open>Reaction\<close> otherwise, and the entry itself when it is not a
  \<open>Reaction\<close>. The event's emoji name, a string, equals only an equal string.
\<close>

definition attached_symbol :: "attached \<Rightarrow> button" where
  "attached_symbol r =
     (case r of
        ReactionObj (EmojiObj i n) \<Rightarrow> Str n
      | ReactionObj (PartialObj i n) \<Rightarrow> PartialObj i n
      | ReactionObj (Str s) \<Rightarrow> Str s
      | RawItem x \<Rightarrow> x)"

definition str_eq :: "string \<Rightarrow> button \<Rightarrow> bool" where
  "str_eq n b = (case b of Str s \<Rightarrow> n = s | EmojiObj i x \<Rightarrow> False | PartialObj i x \<Rightarrow> False)"

definition check_reaction :: "menu \<Rightarrow> reaction_event \<Rightarrow> error + bool" where
  "check_reaction m ev =
     (if user_id ev \<noteq> author_id m then Inr False
      else (case output_msg m of
              None \<Rightarrow> Inl AttributeError
            | Some out \<Rightarrow>
                if message_id ev \<noteq> msg_id out then Inr False
                else Inr (list_ex (\<lambda>btn. str_eq (emoji_name ev) btn)
                            (map attached_symbol (reactions out)))))"

text \<open>
  The predicate handed to \<open>wait_for\<close>:
  \<open>self.custom_check if self.custom_check else self._check_reaction\<close>.
\<close>

definition reaction_check :: "menu \<Rightarrow> reaction_event \<Rightarrow> error + bool" where
  "reaction_check m =
     (case custom_check m of
        Some f \<Rightarrow> (\<lambda>ev. Inr (f ev))
      | None \<Rightarrow> check_reaction m)"

text \<open>
  The call \<open>self._timeout()\<close>. Neither class defines a method of that name (the timeout
  protocol of \<open>BaseMenu\<close> is \<open>_execute_timeout\<close>); \<open>_timeout\<close> is the attribute in which
  \<open>set_timeout\<close> stores the duration. The lookup fails while the attribute is unset, and
  the call of an integer fails once it is set.
\<close>

definition timeout_call :: "st \<Rightarrow> unit outcome" where
  "timeout_call s =
     (case timeout_attr (fst s) of
        None \<Rightarrow> Raised AttributeError s
      | Some n \<Rightarrow> Raised TypeError s)"

text \<open>
  The three tasks of \<open>_get_input\<close> under \<open>asyncio.wait\<close> with \<open>FIRST_COMPLETED\<close>. The
  platform delivers the reaction events that arrive before the timeout, in order;
  \<open>wait_for\<close> completes the task of the first event its predicate accepts, with the
  result of \<open>_get_emoji\<close>, and a predicate that raises fails the task. The polling task
  \<open>_shortcircuit\<close> completes only once the menu is inactive, which nothing makes it
  while the loop is suspended here. The answer is the list of results of the tasks done;
  it is empty when the wait timed out with every task pending.
\<close>

datatype arrival = ReactionAdd reaction_event | ReactionRemove reaction_event

fun event_of :: "arrival \<Rightarrow> reaction_event" where
  "event_of (ReactionAdd ev) = ev"
| "event_of (ReactionRemove ev) = ev"

fun race :: "menu \<Rightarrow> arrival list \<Rightarrow> (error + button option) list" where
  "race m [] = []"
| "race m (a # as) =
     (case reaction_check m (event_of a) of
        Inl e \<Rightarrow> [Inl e]
      | Inr ok \<Rightarrow> if ok then [get_emoji m (event_of a)] else race m as)"

text \<open>Truth value of a task's result and of \<open>self.input\<close>: \<open>None\<close> and the empty string are false.\<close>

fun truthy :: "button option \<Rightarrow> bool" where
  "truthy None = False"
| "truthy (Some (Str s)) = (s \<noteq> [])"
| "truthy (Some (EmojiObj i n)) = True"
| "truthy (Some (PartialObj i n)) = True"

fun truthy_input :: "input_value option \<Rightarrow> bool" where
  "truthy_input None = False"
| "truthy_input (Some CommandMessage) = True"
| "truthy_input (Some (Pressed b)) = truthy (Some b)"

text \<open>
  The loop over the tasks done, in \<open>_get_input\<close>: the first result decides. A true result
  is stored in \<open>self.input\<close> and the loop is left by \<open>break\<close>, after which the function
  ends without a \<open>return\<close> statement; a false one returns at once. Either way the value
  returned is \<open>None\<close>. \<open>future.result()\<close> raises what the task raised.
\<close>

fun for_done :: "(error + button option) list \<Rightarrow> st \<Rightarrow> input_value option outcome" where
  "for_done [] s = Done None s"
| "for_done (Inl e # fs) s = Raised e s"
| "for_done (Inr r # fs) s =
     (if truthy r then Done None ((fst s)\<lparr>input := map_option Pressed r\<rparr>, snd s)
      else Done None s)"

text \<open>\<open>_get_input\<close>: every task pending means a timeout; else the results are looked at.\<close>

definition get_input :: "arrival list \<Rightarrow> st \<Rightarrow> input_value option outcome" where
  "get_input arrivals s =
     (let tasks = 3;
          finished = race (fst s) arrivals;
          pending = tasks - length finished
      in if pending = tasks then andThen (timeout_call s) (\<lambda>_ s1. Done None s1)
         else for_done finished s)"

text \<open>
  One pass of the loop of \<open>open\<close>. Before the fetch, on every pass but the first: the
  buttons are added again when the last visited page is not the current one, else the
  user's reaction is removed in a guild channel.
\<close>

definition before_fetch :: "bool \<Rightarrow> st \<Rightarrow> unit outcome" where
  "before_fetch first_iter s =
     (if first_iter = False then
        (case last_visited_page (fst s) of
           Inl e \<Rightarrow> Raised e s
         | Inr v \<Rightarrow>
             (case page (fst s) of
                None \<Rightarrow> Raised AttributeError s
              | Some p \<Rightarrow>
                  if v \<noteq> index p then add_buttons s
                  else (case output_msg (fst s) of
                          None \<Rightarrow> Raised AttributeError s
                        | Some out \<Rightarrow>
                            if in_guild out
                            then Done () (fst s,
                                   add_effect (RemoveReaction (msg_id out) (input (fst s))) (snd s))
                            else Done () s)))
      else Done () s)"

text \<open>The platform's answer to one pass: the reactions the fetched message carries, and
  the reaction events that arrive during the wait.\<close>

record step =
  fetched :: "attached list"
  arrivals :: "arrival list"

definition fetch_output :: "attached list \<Rightarrow> st \<Rightarrow> unit outcome" where
  "fetch_output rs s =
     (case output_msg (fst s) of
        None \<Rightarrow> Raised AttributeError s
      | Some out \<Rightarrow>
          Done () ((fst s)\<lparr>output_msg :=
                      Some \<lparr>msg_id = msg_id out, in_guild = dest_in_guild (fst s),
                            reactions = rs\<rparr>\<rparr>, snd s))"

text \<open>
  After the fetch: \<open>self.input = await self._get_input()\<close>; with a true input the page's
  \<open>on_next\<close> hook is called with the menu, and when the page changed,
  \<open>self._cleanup_reactions()\<close> is called, a method no class defines.
\<close>

definition after_fetch :: "hooks \<Rightarrow> arrival list \<Rightarrow> st \<Rightarrow> unit outcome" where
  "after_fetch henv as s =
     andThen (get_input as s) (\<lambda>r s3.
       (let s4 = ((fst s3)\<lparr>input := r\<rparr>, snd s3) in
        if truthy_input (input (fst s4)) then
          (case page (fst s4) of
             None \<Rightarrow> Raised AttributeError s4
           | Some p \<Rightarrow>
               (case on_next_event p of
                  None \<Rightarrow> Raised TypeError s4
                | Some h \<Rightarrow>
                    andThen (henv h s4) (\<lambda>_ s5.
                      case last_visited_page (fst s5) of
                        Inl e \<Rightarrow> Raised e s5
                      | Inr v \<Rightarrow>
                          (case page (fst s5) of
                             None \<Rightarrow> Raised AttributeError s5
                           | Some q \<Rightarrow>
                               if v \<noteq> index q then Raised AttributeError s5
                               else Done () s5))))
        else Done () s4))"

text \<open>
  The loop \<open>while self.active\<close>. Each pass takes one answer of the platform; when the
  answers are used up the menu stays suspended at the fetch.
\<close>

fun active_loop :: "hooks \<Rightarrow> bool \<Rightarrow> step list \<Rightarrow> st \<Rightarrow> unit outcome" where
  "active_loop henv first_iter [] s =
     (if active (fst s) then
        (case before_fetch first_iter s of
           Done _ s1 \<Rightarrow> Blocked s1
         | Raised e s1 \<Rightarrow> Raised e s1
         | Blocked s1 \<Rightarrow> Blocked s1)
      else Done () s)"
| "active_loop henv first_iter (stp # rest) s =
     (if active (fst s) then
        (case andThen (before_fetch first_iter s) (\<lambda>_ s1.
              andThen (fetch_output (fetched stp) s1) (\<lambda>_ s2.
                after_fetch henv (arrivals stp) s2)) of
           Done _ s' \<Rightarrow> active_loop henv False rest s'
         | Raised e s' \<Rightarrow> Raised e s'
         | Blocked s' \<Rightarrow> Blocked s')
      else Done () s)"

text \<open>
  \<open>ButtonMenu.open\<close>: validation and \<open>_open\<close> under \<open>try\<close>; a \<open>ButtonsError\<close> or an
  \<open>EventError\<close> is logged as an error, a \<open>SessionError\<close> as an info, and \<open>open\<close> returns;
  any other exception leaves \<open>open\<close>. Without exception the buttons are added and the
  loop runs, outside the \<open>try\<close>.
\<close>

definition open_menu :: "config \<Rightarrow> hooks \<Rightarrow> step list \<Rightarrow> st \<Rightarrow> unit outcome" where
  "open_menu cfg henv steps s =
     (case andThen (validate_buttons cfg s) (\<lambda>_ s1. open_base cfg s1) of
        Raised e s1 \<Rightarrow>
          if e = ButtonsError \<or> e = EventError
          then Done () (fst s1, add_log LError (Exc e) (snd s1))
          else if e = SessionError
          then Done () (fst s1, add_log LInfo (Exc e) (snd s1))
          else Raised e s1
      | Blocked s1 \<Rightarrow> Blocked s1
      | Done _ s1 \<Rightarrow>
          andThen (add_buttons s1) (\<lambda>_ s2. active_loop henv True steps s2))"

section \<open>Scenarios\<close>

text \<open>
  A run of navigation as the history sees it: the menu moves to each page of the list in
  turn and \<open>update_history\<close> is called after each move.
\<close>

fun visit_all :: "config \<Rightarrow> page list \<Rightarrow> st \<Rightarrow> unit outcome" where
  "visit_all cfg [] s = Done () s"
| "visit_all cfg (p # ps) s =
     (case update_history cfg ((fst s)\<lparr>page := Some p\<rparr>, snd s) of
        Done _ s1 \<Rightarrow> visit_all cfg ps s1
      | Raised e s1 \<Rightarrow> Raised e s1
      | Blocked s1 \<Rightarrow> Blocked s1)"

text \<open>
  The menu of the end-to-end scenario: a first page with one button and an \<open>on_next\<close>
  hook that calls \<open>menu.next()\<close>, and a last page with neither. The user is 7, the
  channel is 3, a guild channel. The strings \<open>reload\<close> and \<open>close\<close> stand for the two
  unicode symbols of the example.
\<close>

definition example_config :: config where
  "example_config =
     \<lparr>history_cache_limit = 2, hide_warnings = False, bot_emojis = [],
      unicode_emoji_alias = (\<lambda>s. s = ''reload'' \<or> s = ''close'')\<rparr>"

definition plain_page :: "int \<Rightarrow> page" where
  "plain_page i =
     \<lparr>index = i, buttons_list = [], on_next_event = None, on_cancel_event = None,
      on_timeout_event = None, on_fail_event = None\<rparr>"

definition button_page :: "int \<Rightarrow> page" where
  "button_page i =
     (plain_page i)\<lparr>buttons_list := [Str ''reload''], on_next_event := Some ''advance''\<rparr>"

definition advancing_hooks :: hooks where
  "advancing_hooks name s = next_page example_config s"

definition empty_world :: world where
  "empty_world = \<lparr>sessions = (\<lambda>k. None), next_msg = 0, effects = [], logged = []\<rparr>"

definition scenario_menu :: menu where
  "scenario_menu =
     (new_menu ButtonMenu 1 7 3 True)
       \<lparr>pages := [button_page 0, plain_page 1], page := Some (button_page 0)\<rparr>"

definition press_reload :: reaction_event where
  "press_reload = \<lparr>user_id = 7, message_id = 0, emoji_id = None, emoji_name = ''reload''\<rparr>"

definition press_step :: step where
  "press_step =
     \<lparr>fetched = [ReactionObj (Str ''reload'')], arrivals = [ReactionAdd press_reload]\<rparr>"

definition quiet_step :: step where
  "quiet_step = \<lparr>fetched = [ReactionObj (Str ''reload'')], arrivals = []\<rparr>"

text \<open>Variations: the identity already registered by a menu 5; a menu of a single page;
  a menu whose two pages both have buttons and an \<open>on_next\<close> hook; a menu of two pages
  without hooks; the scenario's menu after \<open>set_timeout(60)\<close>.\<close>

definition busy_world :: world where
  "busy_world = empty_world\<lparr>sessions := (sessions empty_world)((7, 3) := Some 5)\<rparr>"

definition single_menu :: menu where
  "single_menu = scenario_menu\<lparr>pages := [plain_page 0], page := Some (plain_page 0)\<rparr>"

definition both_hooks_menu :: menu where
  "both_hooks_menu = scenario_menu\<lparr>pages := [button_page 0, button_page 1]\<rparr>"

definition no_hooks_menu :: menu where
  "no_hooks_menu =
     scenario_menu\<lparr>pages := [plain_page 0, plain_page 1], page := Some (plain_page 0)\<rparr>"

definition timed_menu :: menu where
  "timed_menu = scenario_menu\<lparr>timeout_attr := Some 60\<rparr>"





text \<open>
  The number of pages with an \<open>on_next\<close> hook among the pages before the first one
  without buttons.
\<close>

definition hooked_prefix :: "page list \<Rightarrow> nat" where
  "hooked_prefix ps =
     length (filter (\<lambda>p. on_next_event p \<noteq> None) (takeWhile (\<lambda>p. buttons_list p \<noteq> []) ps))"

text \<open>The scenario's menu once opened, its output fetched with the button on it; and
  the world in which it is registered.\<close>

definition fetched_menu :: menu where
  "fetched_menu =
     scenario_menu\<lparr>input := Some CommandMessage,
       output_msg := Some \<lparr>msg_id = 0, in_guild = True,
                            reactions = [ReactionObj (Str ''reload'')]\<rparr>,
       history := [0]\<rparr>"

definition opened_world :: world where
  "opened_world =
     \<lparr>sessions = (sessions empty_world)((7, 3) := Some 1), next_msg = 1,
      effects = [Send (PageEmbed 0), DeleteCommand, AddReaction 0 (Str ''reload'')],
      logged = []\<rparr>"

text \<open>The same menu with a reaction on its output whose emoji is a \<open>PartialEmoji\<close>
  named \<open>party\<close>, and the author's press of that emoji.\<close>

definition partial_menu :: menu where
  "partial_menu =
     fetched_menu\<lparr>output_msg := Some \<lparr>msg_id = 0, in_guild = True,
                       reactions = [ReactionObj (PartialObj (Some 5) ''party'')]\<rparr>\<rparr>"

definition press_party :: reaction_event where
  "press_party = \<lparr>user_id = 7, message_id = 0, emoji_id = Some 5, emoji_name = ''party''\<rparr>"

lemmas scenario_defs =
  example_config_def plain_page_def button_page_def advancing_hooks_def empty_world_def
  scenario_menu_def press_reload_def press_step_def quiet_step_def new_menu_def
  busy_world_def single_menu_def both_hooks_menu_def no_hooks_menu_def timed_menu_def
  fetched_menu_def opened_world_def partial_menu_def press_party_def

lemmas run_defs =
  validate_buttons_def open_menu_def open_base_def start_session_def session_key_def
  update_history_def cleanup_input_def add_buttons_def add_effect_def add_log_def
  before_fetch_def fetch_output_def after_fetch_def get_input_def reaction_check_def
  check_reaction_def attached_symbol_def str_eq_def get_emoji_def timeout_call_def
  dest_in_guild_def last_visited_page_def Let_def

section \<open>History\<close>

lemma py_index_second_last: "py_index (xs @ [a, b]) (- 2) = Inr a"
  by (simp add: py_index_def nth_append)

text \<open>
  Claim C9. \<open>last_visited_page\<close> answers the second-most-recent entry of the history when
  the history holds at least two entries (it ends with \<open>a, b\<close>: the answer is \<open>a\<close>), and
  0 when it holds fewer than two. It never raises.
\<close>

theorem last_visited_page_second_most_recent: "(\<forall>xs a b. history m = xs @ [a, b] \<longrightarrow> last_visited_page m = Inr a) \<and>
   (length (history m) < 2 \<longrightarrow> last_visited_page m = Inr 0)"
  by (auto simp: last_visited_page_def py_index_second_last)

lemma update_history_step:
  assumes "0 < history_cache_limit cfg" "page m = Some p"
    "int (length (history m)) \<le> history_cache_limit cfg"
  shows "update_history cfg (m, w) =
     Done () (m\<lparr>history := drop (Suc (length (history m)) - nat (history_cache_limit cfg))
                     (history m @ [index p])\<rparr>, w)"
proof (cases "int (length (history m)) \<ge> history_cache_limit cfg")
  case True
  with assms(3) have eq: "length (history m) = nat (history_cache_limit cfg)" by simp
  with assms(1) obtain x h where h: "history m = x # h" by (cases "history m") auto
  from eq have "Suc (length (history m)) - nat (history_cache_limit cfg) = 1" by simp
  with True h assms(2) show ?thesis by (simp add: update_history_def)
next
  case False
  then have "Suc (length (history m)) - nat (history_cache_limit cfg) = 0" by simp
  with False assms(2) show ?thesis by (simp add: update_history_def)
qed

lemma drop_window:
  assumes "0 < L" "length h \<le> L"
  shows "drop (length (drop (Suc (length h) - L) (h @ [x])) + n - L)
           (drop (Suc (length h) - L) (h @ [x]) @ ys)
         = drop (length h + Suc n - L) (h @ x # ys)"
proof (cases "length h = L")
  case True
  with assms(1) obtain y t where h: "h = y # t" by (cases h) auto
  with True have L: "L = Suc (length t)" by simp
  show ?thesis unfolding h L by simp
next
  case False
  with assms(2) have "Suc (length h) - L = 0" by simp
  then show ?thesis by simp
qed

lemma visit_all_history:
  assumes "0 < history_cache_limit cfg"
  shows "int (length (history m)) \<le> history_cache_limit cfg \<Longrightarrow>
    visit_all cfg ps (m, w) =
     Done () (m\<lparr>page := (if ps = [] then page m else Some (last ps)),
                history := drop (length (history m) + length ps - nat (history_cache_limit cfg))
                     (history m @ map index ps)\<rparr>, w)"
proof (induction ps arbitrary: m)
  case Nil
  then show ?case by simp
next
  case (Cons p ps)
  define L where "L = nat (history_cache_limit cfg)"
  have L: "0 < L" "length (history m) \<le> L"
    using assms Cons.prems by (simp_all add: L_def)
  let ?m1 = "m\<lparr>page := Some p\<rparr>"
  let ?h = "drop (Suc (length (history m)) - L) (history m @ [index p])"
  let ?m2 = "?m1\<lparr>history := ?h\<rparr>"
  have step: "update_history cfg (?m1, w) = Done () (?m2, w)"
    using update_history_step[OF assms, of ?m1 p w] Cons.prems by (simp add: L_def)
  have len: "int (length (history ?m2)) \<le> history_cache_limit cfg"
    using Cons.prems assms by (auto simp: L_def)
  have win: "drop (length ?h + length ps - L) (?h @ map index ps)
      = drop (length (history m) + Suc (length ps) - L) (history m @ index p # map index ps)"
    by (rule drop_window[OF L])
  have "visit_all cfg (p # ps) (m, w) = visit_all cfg ps (?m2, w)"
    using step by simp
  also have "\<dots> = Done () (?m2\<lparr>page := (if ps = [] then page ?m2 else Some (last ps)),
                history := drop (length (history ?m2) + length ps - L)
                     (history ?m2 @ map index ps)\<rparr>, w)"
    using Cons.IH[OF len] by (simp only: L_def)
  also have "\<dots> = Done () (m\<lparr>page := (if p # ps = [] then page m else Some (last (p # ps))),
                history := drop (length (history m) + length (p # ps) - L)
                     (history m @ map index (p # ps))\<rparr>, w)"
    using win by simp
  finally show ?case by (simp only: L_def)
qed

text \<open>
  Claim C7. With a positive cache limit, starting from an empty history, every update
  succeeds and the history is the last \<open>limit\<close> indices visited, in order: its length
  never exceeds the limit; after \<open>limit + k\<close> updates the oldest \<open>k\<close> indices are gone;
  the newest entry is the index of the page visited last.
\<close>

theorem history_bounded_fifo:
  assumes "0 < history_cache_limit cfg" and "history m = []"
  shows "\<exists>m'. visit_all cfg ps (m, w) = Done () (m', w)
     \<and> int (length (history m')) \<le> history_cache_limit cfg
     \<and> history m' = drop (length ps - nat (history_cache_limit cfg)) (map index ps)
     \<and> (\<forall>k. length ps = nat (history_cache_limit cfg) + k \<longrightarrow> history m' = drop k (map index ps))
     \<and> (ps \<noteq> [] \<longrightarrow> last (history m') = index (last ps))"
proof -
  let ?L = "nat (history_cache_limit cfg)"
  let ?m' = "m\<lparr>page := (if ps = [] then page m else Some (last ps)),
                history := drop (length ps - ?L) (map index ps)\<rparr>"
  have v: "visit_all cfg ps (m, w) = Done () (?m', w)"
    using visit_all_history[OF assms(1), of m ps w] assms by simp
  have l: "ps \<noteq> [] \<Longrightarrow> last (drop (length ps - ?L) (map index ps)) = index (last ps)"
    using assms(1) by (simp add: last_map)
  show ?thesis
    apply (rule exI[of _ ?m'])
    using v l assms(1) by auto
qed


text \<open>Witness for C9: a history of three entries, and a history of one.\<close>

theorem last_visited_page_second_most_recent_witness:
  "last_visited_page (scenario_menu\<lparr>history := [4, 0, 1]\<rparr>) = Inr 0 \<and>
   last_visited_page (scenario_menu\<lparr>history := [4]\<rparr>) = Inr 0"
  using last_visited_page_second_most_recent [of "scenario_menu\<lparr>history := [4, 0, 1]\<rparr>"]
    last_visited_page_second_most_recent [of "scenario_menu\<lparr>history := [4]\<rparr>"]
  by simp

text \<open>Witness for C7: limit 2, three updates at the indices 0, 1, 2.\<close>

theorem history_bounded_fifo_witness:
  "\<exists>m'. visit_all example_config [plain_page 0, plain_page 1, plain_page 2]
            (scenario_menu, empty_world) = Done () (m', empty_world)
      \<and> history m' = [1, 2]"
proof -
  have h: "0 < history_cache_limit example_config" "history scenario_menu = []"
    by (simp_all add: scenario_defs)
  have d: "nat (history_cache_limit example_config) = 2"
    by (simp add: example_config_def)
  from history_bounded_fifo [OF h, of "[plain_page 0, plain_page 1, plain_page 2]" empty_world]
  obtain m' where m': "visit_all example_config [plain_page 0, plain_page 1, plain_page 2]
            (scenario_menu, empty_world) = Done () (m', empty_world)"
      "history m' = drop (length [plain_page 0, plain_page 1, plain_page 2]
         - nat (history_cache_limit example_config))
         (map index [plain_page 0, plain_page 1, plain_page 2])"
    by blast
  from m'(2) have "history m' = [1, 2]"
    unfolding d by (simp add: plain_page_def)
  with m'(1) show ?thesis by blast
qed

section \<open>Navigation\<close>

text \<open>
  Claim C6. With a current page, \<open>next\<close> at the last index and \<open>previous\<close> at index 0
  return without raising and leave the menu and everything outside it as they were:
  the page, the history, the registry and the calls made to the platform.
\<close>

theorem boundary_navigation_noop:
  assumes "page m = Some p"
  shows "(index p = int (length (pages m)) - 1 \<longrightarrow> next_page cfg (m, w) = Done () (m, w)) \<and>
         (index p = 0 \<longrightarrow> previous_page cfg (m, w) = Done () (m, w))"
  using assms by (simp add: next_page_def previous_page_def)

text \<open>Witness for C6: the menu of one page, where index 0 is also the last index.\<close>

theorem boundary_navigation_noop_witness:
  "next_page example_config (single_menu, empty_world) = Done () (single_menu, empty_world) \<and>
   previous_page example_config (single_menu, empty_world) = Done () (single_menu, empty_world)"
proof -
  have p: "page single_menu = Some (plain_page 0)" "index (plain_page 0) = 0"
    "length (pages single_menu) = 1"
    by (simp_all add: single_menu_def plain_page_def)
  show ?thesis
    using boundary_navigation_noop [OF p(1), of example_config empty_world] p(2,3)
    by simp
qed

section \<open>Registration\<close>

text \<open>Validation only writes to the log.\<close>

lemma count_callbacks_frame:
  "count_callbacks cfg ps cb w = (r, w1) \<Longrightarrow>
     sessions w1 = sessions w \<and> next_msg w1 = next_msg w \<and> effects w1 = effects w"
proof (induction cfg ps cb w rule: count_callbacks.induct)
  case (1 cfg cb w)
  then show ?case by simp
next
  case (2 cfg p ps cb w)
  then show ?case
    by (auto simp: Let_def add_log_def split: if_splits sum.splits)
qed

lemma validate_buttons_frame:
  assumes "validate_buttons cfg (m, w) = Done v s1 \<or> validate_buttons cfg (m, w) = Raised e s1"
  shows "fst s1 = m \<and> sessions (snd s1) = sessions w \<and> next_msg (snd s1) = next_msg w
     \<and> effects (snd s1) = effects w"
proof -
  obtain r w1 where c: "count_callbacks cfg (pages m) 0 w = (r, w1)"
    by (cases "count_callbacks cfg (pages m) 0 w") auto
  from count_callbacks_frame[OF c] assms c show ?thesis
    by (auto simp: validate_buttons_def split: sum.splits option.splits if_splits)
qed

lemma open_base_duplicate:
  assumes "pages m \<noteq> []" "sessions w (session_key m) \<noteq> None"
  shows "open_base cfg (m, w) = Raised SessionError (m, w)"
  using assms by (simp add: open_base_def start_session_def)

text \<open>
  Claim C3. The registry maps an identity to at most one menu. When the identity is
  registered already, \<open>_start_session\<close> raises \<open>SessionError\<close> and changes nothing, and
  \<open>open\<close> (of a menu with pages that pass validation) returns normally with the menu
  unchanged, the registry unchanged, no call made to the platform and one record logged
  at info level: the loop is not entered. When the identity is free, \<open>_start_session\<close>
  stores the menu under it and succeeds.
\<close>

theorem duplicate_session_rejected:
  "(sessions w (session_key m) \<noteq> None \<longrightarrow>
      start_session (m, w) = Raised SessionError (m, w) \<and>
      (\<forall>w1. pages m \<noteq> [] \<longrightarrow> validate_buttons cfg (m, w) = Done () (m, w1) \<longrightarrow>
         open_menu cfg henv steps (m, w) = Done () (m, add_log LInfo (Exc SessionError) w1)
         \<and> sessions (add_log LInfo (Exc SessionError) w1) = sessions w
         \<and> effects (add_log LInfo (Exc SessionError) w1) = effects w)) \<and>
   (sessions w (session_key m) = None \<longrightarrow>
      start_session (m, w) =
        Done () (m, w\<lparr>sessions := (sessions w)(session_key m := Some (menu_ref m))\<rparr>))"
proof (intro conjI impI allI)
  assume d: "sessions w (session_key m) \<noteq> None"
  then show "start_session (m, w) = Raised SessionError (m, w)"
    by (simp add: start_session_def)
  fix w1
  assume p: "pages m \<noteq> []" and v: "validate_buttons cfg (m, w) = Done () (m, w1)"
  from validate_buttons_frame[of cfg m w "()" "(m, w1)"] v
  have f: "sessions w1 = sessions w" "effects w1 = effects w" by auto
  have "open_base cfg (m, w1) = Raised SessionError (m, w1)"
    using p d f by (intro open_base_duplicate) simp_all
  with v show "open_menu cfg henv steps (m, w) = Done () (m, add_log LInfo (Exc SessionError) w1)"
    by (simp add: open_menu_def)
  show "sessions (add_log LInfo (Exc SessionError) w1) = sessions w"
    using f by (simp add: add_log_def)
  show "effects (add_log LInfo (Exc SessionError) w1) = effects w"
    using f by (simp add: add_log_def)
next
  assume "sessions w (session_key m) = None"
  then show "start_session (m, w) =
        Done () (m, w\<lparr>sessions := (sessions w)(session_key m := Some (menu_ref m))\<rparr>)"
    by (simp add: start_session_def)
qed

lemma scenario_valid:
  "validate_buttons example_config (scenario_menu, w) = Done () (scenario_menu, w)"
  by (simp add: scenario_defs validate_buttons_def Let_def)

text \<open>Witness for C3: the scenario's menu, opened while menu 5 holds its identity, and
  registered in the empty registry.\<close>

theorem duplicate_session_rejected_witness:
  "open_menu example_config advancing_hooks [press_step] (scenario_menu, busy_world)
     = Done () (scenario_menu, add_log LInfo (Exc SessionError) busy_world) \<and>
   sessions (add_log LInfo (Exc SessionError) busy_world) (7, 3) = Some 5 \<and>
   start_session (scenario_menu, empty_world)
     = Done () (scenario_menu, empty_world\<lparr>sessions := (sessions empty_world)((7, 3) := Some 1)\<rparr>)"
proof -
  have k: "session_key scenario_menu = (7, 3)" "menu_ref scenario_menu = 1"
    "pages scenario_menu \<noteq> []"
    by (simp_all add: session_key_def scenario_menu_def new_menu_def)
  have b: "sessions busy_world (7, 3) = Some 5" "sessions empty_world (7, 3) = None"
    by (simp_all add: busy_world_def empty_world_def)
  show ?thesis
    using duplicate_session_rejected [of busy_world scenario_menu example_config advancing_hooks "[press_step]"]
      duplicate_session_rejected [of empty_world scenario_menu example_config advancing_hooks "[press_step]"]
      scenario_valid k b
    by (simp add: add_log_def)
qed

section \<open>Validation of reaction events\<close>





section \<open>Validation at open\<close>

lemma check_buttons_error: "check_buttons cfg bs = Inl e \<Longrightarrow> e = ButtonsError"
  by (induction cfg bs rule: check_buttons.induct) (auto simp: Let_def split: if_splits)

lemma count_callbacks_result:
  "count_callbacks cfg ps cb w = (r, w1) \<Longrightarrow>
     r = Inl ButtonsError \<or> r = Inr (cb + int (hooked_prefix ps))"
proof (induction cfg ps cb w rule: count_callbacks.induct)
  case (1 cfg cb w)
  then show ?case by (simp add: hooked_prefix_def)
next
  case (2 cfg p ps cb w)
  show ?case
  proof (cases "buttons_list p = []")
    case True
    with 2(2) show ?thesis by (simp add: hooked_prefix_def)
  next
    case False
    show ?thesis
    proof (cases "check_buttons cfg (buttons_list p)")
      case (Inl e)
      with False 2(2) check_buttons_error[OF Inl] show ?thesis
        by (auto simp: Let_def)
    next
      case (Inr u)
      let ?cb1 = "if on_next_event p \<noteq> None then cb + 1 else cb"
      let ?w1 = "if length (buttons_list p) > 5 \<and> hide_warnings cfg = False
                      then add_log LWarning ThrottleWarning w else w"
      from False Inr 2(2) have rec: "count_callbacks cfg ps ?cb1 ?w1 = (r, w1)"
        by (simp add: Let_def)
      have "r = Inl ButtonsError \<or> r = Inr (?cb1 + int (hooked_prefix ps))"
        by (rule 2(1)[OF False refl _ refl Inr rec]) (use False in simp)
      moreover have "?cb1 + int (hooked_prefix ps) = cb + int (hooked_prefix (p # ps))"
        using False by (simp add: hooked_prefix_def)
      ultimately show ?thesis by simp
    qed
  qed
qed

text \<open>
  Claim C4, as stated, fails: a menu of two pages, each with a button and an \<open>on_next\<close>
  hook, so that its last page declares the hook, passes validation, is registered and
  waits in the loop, with nothing logged.
\<close>

theorem last_page_hook_accepted:
  "on_next_event (last (pages both_hooks_menu)) = Some ''advance'' \<and>
   validate_buttons example_config (both_hooks_menu, empty_world)
     = Done () (both_hooks_menu, empty_world) \<and>
   (\<exists>s. open_menu example_config advancing_hooks [] (both_hooks_menu, empty_world) = Blocked s
      \<and> active (fst s) \<and> sessions (snd s) (7, 3) = Some 1 \<and> logged (snd s) = [])"
  by (simp add: scenario_defs run_defs)

text \<open>
  Claim C4, amended. With a current page, when the pages with an \<open>on_next\<close> hook, counted
  up to the first page without buttons, are fewer than the number of pages minus one,
  validation raises a \<open>ButtonsError\<close> or an \<open>EventError\<close>; \<open>open\<close> logs it as an error
  and returns with the menu unchanged, nothing registered and no call made to the
  platform.
\<close>

theorem too_few_hooks_rejected:
  assumes "page m = Some p"
    and "int (hooked_prefix (pages m)) < int (length (pages m)) - 1"
  shows "\<exists>e w1. (e = ButtonsError \<or> e = EventError)
      \<and> validate_buttons cfg (m, w) = Raised e (m, w1)
      \<and> open_menu cfg henv steps (m, w) = Done () (m, add_log LError (Exc e) w1)
      \<and> sessions (add_log LError (Exc e) w1) = sessions w
      \<and> effects (add_log LError (Exc e) w1) = effects w"
proof -
  obtain r w1 where c: "count_callbacks cfg (pages m) 0 w = (r, w1)"
    by (cases "count_callbacks cfg (pages m) 0 w") auto
  from count_callbacks_frame[OF c]
  have f: "sessions w1 = sessions w" "effects w1 = effects w" by auto
  from count_callbacks_result[OF c]
  have "r = Inl ButtonsError \<or> r = Inr (int (hooked_prefix (pages m)))" by simp
  then have "\<exists>e. (e = ButtonsError \<or> e = EventError)
      \<and> validate_buttons cfg (m, w) = Raised e (m, w1)"
  proof
    assume "r = Inl ButtonsError"
    with c show ?thesis by (simp add: validate_buttons_def)
  next
    assume "r = Inr (int (hooked_prefix (pages m)))"
    with c assms have "validate_buttons cfg (m, w) = Raised EventError (m, w1)"
      by (cases "on_fail_event p") (simp_all add: validate_buttons_def)
    then show ?thesis by simp
  qed
  then obtain e where e: "e = ButtonsError \<or> e = EventError"
    and v: "validate_buttons cfg (m, w) = Raised e (m, w1)" by blast
  from v e have "open_menu cfg henv steps (m, w) = Done () (m, add_log LError (Exc e) w1)"
    by (auto simp: open_menu_def)
  with e v f show ?thesis
    by (intro exI[of _ e] exI[of _ w1]) (simp add: add_log_def)
qed

text \<open>Witness for C4: two pages without hooks.\<close>

theorem too_few_hooks_rejected_witness:
  "open_menu example_config advancing_hooks [press_step] (no_hooks_menu, empty_world)
     = Done () (no_hooks_menu, add_log LError (Exc EventError) empty_world)"
proof -
  have p: "page no_hooks_menu = Some (plain_page 0)"
    by (simp add: no_hooks_menu_def)
  have h: "int (hooked_prefix (pages no_hooks_menu)) < int (length (pages no_hooks_menu)) - 1"
    by (simp add: no_hooks_menu_def hooked_prefix_def plain_page_def)
  have v: "validate_buttons example_config (no_hooks_menu, empty_world)
      = Raised EventError (no_hooks_menu, empty_world)"
    by (simp add: validate_buttons_def no_hooks_menu_def plain_page_def)
  from too_few_hooks_rejected [OF p h, of example_config empty_world advancing_hooks "[press_step]"]
  show ?thesis using v by auto
qed

lemma update_history_ok:
  assumes "0 < history_cache_limit cfg" "page m = Some p"
  shows "\<exists>h. update_history cfg (m, w) = Done () (m\<lparr>history := h\<rparr>, w)"
proof (cases "int (length (history m)) \<ge> history_cache_limit cfg")
  case True
  with assms(1) obtain x t where "history m = x # t" by (cases "history m") auto
  with True assms(2) show ?thesis
    by (intro exI[of _ "t @ [index p]"]) (simp add: update_history_def)
next
  case False
  with assms(2) show ?thesis
    by (intro exI[of _ "history m @ [index p]"]) (simp add: update_history_def)
qed

lemma open_base_ok:
  assumes "pages m \<noteq> []" "page m = Some p" "sessions w (session_key m) = None"
    "0 < history_cache_limit cfg"
  shows "\<exists>h out w'. open_base cfg (m, w) =
       Done () (m\<lparr>input := Some CommandMessage, output_msg := Some out, history := h\<rparr>, w')
     \<and> sessions w' = (sessions w)(session_key m := Some (menu_ref m))"
proof -
  let ?w1 = "w\<lparr>sessions := (sessions w)(session_key m := Some (menu_ref m))\<rparr>"
  let ?out = "\<lparr>msg_id = next_msg ?w1, in_guild = dest_in_guild m, reactions = []\<rparr>"
  let ?m2 = "m\<lparr>input := Some CommandMessage, output_msg := Some ?out\<rparr>"
  let ?w2 = "add_effect (Send (PageEmbed (index p))) (?w1\<lparr>next_msg := Suc (next_msg ?w1)\<rparr>)"
  have p2: "page ?m2 = Some p" using assms(2) by simp
  from update_history_ok[OF assms(4) p2, of ?w2]
  obtain h where h: "update_history cfg (?m2, ?w2) = Done () (?m2\<lparr>history := h\<rparr>, ?w2)" by blast
  have st: "start_session (m, w) = Done () (m, ?w1)"
    using assms(3) by (simp add: start_session_def)
  have ci: "\<exists>w'. cleanup_input (?m2\<lparr>history := h\<rparr>, ?w2) = Done () (?m2\<lparr>history := h\<rparr>, w')
       \<and> sessions w' = sessions ?w2"
    by (simp add: cleanup_input_def add_effect_def)
  then obtain w' where w': "cleanup_input (?m2\<lparr>history := h\<rparr>, ?w2) = Done () (?m2\<lparr>history := h\<rparr>, w')"
       "sessions w' = sessions ?w2" by blast
  have "open_base cfg (m, w) = Done () (?m2\<lparr>history := h\<rparr>, w')"
    using assms(1,2) st h w'(1) by (simp add: open_base_def Let_def dest_in_guild_def)
  moreover have "sessions w' = (sessions w)(session_key m := Some (menu_ref m))"
    using w'(2) by (simp add: add_effect_def)
  ultimately show ?thesis by blast
qed

lemma add_buttons_ok:
  assumes "page m = Some p" "output_msg m = Some out"
  shows "\<exists>w'. add_buttons (m, w) = Done () (m, w') \<and> sessions w' = sessions w"
proof -
  have "sessions (foldl (\<lambda>w b. add_effect (AddReaction i b) w) w bs) = sessions w" for i bs
    by (induction bs arbitrary: w) (simp_all add: add_effect_def)
  with assms show ?thesis by (simp add: add_buttons_def)
qed

text \<open>
  Claim C5, as stated, fails: the menu of one page passes validation, is registered and
  waits in the loop, active, with nothing logged.
\<close>

theorem single_page_accepted:
  "length (pages single_menu) = 1 \<and>
   validate_buttons example_config (single_menu, empty_world)
     = Done () (single_menu, empty_world) \<and>
   (\<exists>s. open_menu example_config advancing_hooks [] (single_menu, empty_world) = Blocked s
      \<and> active (fst s) \<and> sessions (snd s) (7, 3) = Some 1 \<and> logged (snd s) = [])"
  by (simp add: scenario_defs run_defs)

text \<open>
  Claim C5, amended. A menu of exactly one page is allowed: when the page has no
  \<open>on_fail\<close> hook and valid buttons, the identity is free, the menu is active and the
  cache limit is positive, validation passes and \<open>open\<close> registers the menu and waits in
  the loop with the menu active. The page count that is rejected is zero, by \<open>add_pages\<close>
  with a \<open>PagesError\<close>.
\<close>

theorem single_page_session_opens:
  assumes "pages m = [p]" "page m = Some p" "on_fail_event p = None"
    and "check_buttons cfg (buttons_list p) = Inr ()"
    and "sessions w (session_key m) = None" "active m" "0 < history_cache_limit cfg"
  shows "(\<exists>w1. validate_buttons cfg (m, w) = Done () (m, w1)) \<and>
         (\<exists>s. open_menu cfg henv [] (m, w) = Blocked s \<and> active (fst s)
              \<and> sessions (snd s) (session_key m) = Some (menu_ref m)) \<and>
         add_pages [] (m, w) = Raised PagesError (m, w)"
proof -
  obtain r w1 where c: "count_callbacks cfg (pages m) 0 w = (r, w1)"
    by (cases "count_callbacks cfg (pages m) 0 w") auto
  from count_callbacks_frame[OF c] have f: "sessions w1 = sessions w" by simp
  from c assms(1,4) obtain cb where r: "r = Inr cb" "0 \<le> cb"
    by (auto simp: Let_def split: if_splits)
  with c assms(1,2,3) have v: "validate_buttons cfg (m, w) = Done () (m, w1)"
    by (simp add: validate_buttons_def)
  have ne: "pages m \<noteq> []" using assms(1) by simp
  have k: "sessions w1 (session_key m) = None" using f assms(5) by simp
  from open_base_ok[OF ne assms(2) k assms(7)]
  obtain h out w2 where ob: "open_base cfg (m, w1) =
       Done () (m\<lparr>input := Some CommandMessage, output_msg := Some out, history := h\<rparr>, w2)"
     and s2: "sessions w2 = (sessions w1)(session_key m := Some (menu_ref m))" by blast
  let ?m2 = "m\<lparr>input := Some CommandMessage, output_msg := Some out, history := h\<rparr>"
  have "page ?m2 = Some p" "output_msg ?m2 = Some out" using assms(2) by simp_all
  from add_buttons_ok[OF this, of w2]
  obtain w3 where ab: "add_buttons (?m2, w2) = Done () (?m2, w3)" and s3: "sessions w3 = sessions w2"
    by blast
  have lp: "active_loop henv True [] (?m2, w3) = Blocked (?m2, w3)"
    using assms(6) by (simp add: before_fetch_def)
  have "open_menu cfg henv [] (m, w) = Blocked (?m2, w3)"
    using v ob ab lp by (simp add: open_menu_def)
  moreover have "active ?m2" using assms(6) by simp
  moreover have "sessions w3 (session_key m) = Some (menu_ref m)" using s3 s2 by simp
  ultimately have o: "\<exists>s. open_menu cfg henv [] (m, w) = Blocked s \<and> active (fst s)
              \<and> sessions (snd s) (session_key m) = Some (menu_ref m)" by auto
  have a: "add_pages [] (m, w) = Raised PagesError (m, w)"
    by (simp add: add_pages_def validate_pages_def)
  from v o a show ?thesis by blast
qed

text \<open>Witness for C5: the menu of one page without buttons.\<close>

theorem single_page_session_opens_witness:
  "(\<exists>s. open_menu example_config advancing_hooks [] (single_menu, empty_world) = Blocked s
      \<and> active (fst s) \<and> sessions (snd s) (7, 3) = Some 1)"
proof -
  have a: "pages single_menu = [plain_page 0]" "page single_menu = Some (plain_page 0)"
    "on_fail_event (plain_page 0) = None"
    "check_buttons example_config (buttons_list (plain_page 0)) = Inr ()"
    "sessions empty_world (session_key single_menu) = None" "active single_menu"
    "0 < history_cache_limit example_config"
    by (simp_all add: scenario_defs session_key_def)
  have k: "session_key single_menu = (7, 3)" "menu_ref single_menu = 1"
    by (simp_all add: scenario_defs session_key_def)
  from single_page_session_opens [OF a, of advancing_hooks] k show ?thesis by simp
qed

section \<open>The loop\<close>

lemma scenario_opens:
  "open_menu example_config advancing_hooks [] (scenario_menu, empty_world)
     = Blocked (scenario_menu\<lparr>input := Some CommandMessage,
          output_msg := Some \<lparr>msg_id = 0, in_guild = True, reactions = []\<rparr>,
          history := [0]\<rparr>, opened_world)"
  by (simp add: scenario_defs run_defs)

text \<open>\<open>_get_input\<close> never returns an input, so no pass of the loop calls a hook.\<close>

lemma get_input_returns_none:
  "get_input as s = Done r s' \<Longrightarrow> r = None"
proof -
  have "for_done fs s = Done r s' \<Longrightarrow> r = None" for fs
    by (cases "(fs, s)" rule: for_done.cases) (auto split: if_splits)
  then show "get_input as s = Done r s' \<Longrightarrow> r = None"
    by (cases "timeout_attr (fst s)") (auto simp: get_input_def timeout_call_def Let_def split: if_splits)
qed

lemma after_fetch_ignores_hooks: "after_fetch henv as s = after_fetch henv' as s"
proof (cases "get_input as s")
  case (Done r s')
  with get_input_returns_none[OF Done] show ?thesis by (simp add: after_fetch_def)
next
  case (Raised e s')
  then show ?thesis by (simp add: after_fetch_def)
next
  case (Blocked s')
  then show ?thesis by (simp add: after_fetch_def)
qed

lemma active_loop_ignores_hooks:
  "active_loop henv first_iter steps s = active_loop henv' first_iter steps s"
proof (induction steps arbitrary: first_iter s)
  case Nil
  show ?case by simp
next
  case (Cons stp rest)
  have "after_fetch henv = after_fetch henv'"
    by (intro ext) (rule after_fetch_ignores_hooks)
  then show ?case using Cons by (simp split: outcome.splits)
qed

lemma open_menu_ignores_hooks:
  "open_menu cfg henv steps s = open_menu cfg henv' steps s"
proof -
  have h: "active_loop henv True steps = active_loop henv' True steps"
    by (intro ext) (rule active_loop_ignores_hooks)
  show ?thesis by (simp only: open_menu_def h)
qed

text \<open>
  Claim C1, on the code. In the end-to-end scenario the press is accepted and the task
  answers the button; \<open>_get_input\<close> stores it and returns \<open>None\<close>, which \<open>open\<close> assigns
  to the input; the hook is not called: after the press the menu is still on its first
  page, active and registered, and waits for the next fetch.
\<close>

theorem press_does_not_advance:
  "race fetched_menu [ReactionAdd press_reload] = [Inr (Some (Str ''reload''))] \<and>
   get_input [ReactionAdd press_reload] (fetched_menu, opened_world)
     = Done None (fetched_menu\<lparr>input := Some (Pressed (Str ''reload''))\<rparr>, opened_world) \<and>
   open_menu example_config advancing_hooks [press_step] (scenario_menu, empty_world)
     = Blocked (fetched_menu\<lparr>input := None\<rparr>,
                add_effect (RemoveReaction 0 None) opened_world)"
  by (simp add: scenario_defs run_defs)

text \<open>What the hook of the scenario does when it is called: the menu moves to the last
  page and the session is closed.\<close>

lemma advance_hook_effect:
  "advancing_hooks ''advance'' (fetched_menu\<lparr>input := Some (Pressed (Str ''reload''))\<rparr>, opened_world)
     = Done () (fetched_menu\<lparr>input := Some (Pressed (Str ''reload'')), page := Some (plain_page 1),
                   active := False, history := [0, 1]\<rparr>,
                add_effect (Edit 0 (PageEmbed 1)) (opened_world\<lparr>sessions := (\<lambda>k. None)\<rparr>))"
  by (simp add: scenario_defs next_page_def py_index_def post_next_def close_session_def
      send_message_def run_defs fun_eq_iff)

text \<open>
  Claim C2, on the code. When no event arrives before the timeout, \<open>_get_input\<close> raises
  at \<open>self._timeout()\<close> (an \<open>AttributeError\<close>, or a \<open>TypeError\<close> after \<open>set_timeout\<close>) and
  the exception leaves \<open>open\<close>: no notice is sent, the menu stays active and registered.
\<close>

theorem timeout_raises:
  "get_input [] (fetched_menu, opened_world) = Raised AttributeError (fetched_menu, opened_world) \<and>
   open_menu example_config advancing_hooks [quiet_step] (scenario_menu, empty_world)
     = Raised AttributeError (fetched_menu, opened_world) \<and>
   open_menu example_config advancing_hooks [quiet_step] (timed_menu, empty_world)
     = Raised TypeError (fetched_menu\<lparr>timeout_attr := Some 60\<rparr>, opened_world) \<and>
   active fetched_menu \<and> sessions opened_world (7, 3) = Some 1"
  by (simp add: scenario_defs run_defs)

text \<open>The timeout protocol of \<open>BaseMenu\<close>, in the same state: the notice replaces the
  page, the session is removed and the menu is inactive.\<close>

lemma execute_timeout_default:
  "execute_timeout advancing_hooks (fetched_menu, opened_world)
     = Done () (fetched_menu\<lparr>active := False\<rparr>,
                add_effect (Edit 0 TimedOutEmbed) (opened_world\<lparr>sessions := (\<lambda>k. None)\<rparr>))"
  by (simp add: scenario_defs execute_timeout_def send_message_def close_session_def
      run_defs fun_eq_iff)

end
